theory Spec2Isabelle
  imports Complex_Main
begin

section \<open>Exceptions, dictionaries and loops\<close>

text \<open>
  The two exceptions the arithmetic and the dictionary accesses of \<^verbatim>\<open>heredity.py\<close>
  can raise. A computation that may raise returns \<open>error + 'a\<close>; \<open>Inl\<close> is the
  exception. The source has no \<^verbatim>\<open>raise\<close> statement of its own.
\<close>

datatype error = KeyError | ZeroDivisionError

definition ebind :: "error + 'a \<Rightarrow> ('a \<Rightarrow> error + 'b) \<Rightarrow> error + 'b" where
  "ebind m f = (case m of Inl e \<Rightarrow> Inl e | Inr v \<Rightarrow> f v)"

text \<open>The subscript \<^verbatim>\<open>d[k]\<close> on a dictionary.\<close>

definition subscript :: "('k \<rightharpoonup> 'v) \<Rightarrow> 'k \<Rightarrow> error + 'v" where
  "subscript d k = (case d k of None \<Rightarrow> Inl KeyError | Some v \<Rightarrow> Inr v)"

text \<open>
  A \<^verbatim>\<open>for\<close> loop whose body updates a state and may raise: the first exception
  ends the loop.
\<close>

fun for_each :: "('a \<Rightarrow> 's \<Rightarrow> error + 's) \<Rightarrow> 'a list \<Rightarrow> 's \<Rightarrow> error + 's" where
  "for_each body [] s = Inr s"
| "for_each body (x # xs) s = ebind (body x s) (for_each body xs)"

section \<open>The data model\<close>

text \<open>
  Floats are modelled as exact rationals. Gene counts are the integers 0, 1 and 2; they
  are only ever used as dictionary keys.
\<close>

record probs =
  PROBS_gene :: "nat \<rightharpoonup> rat"
  PROBS_trait :: "nat \<rightharpoonup> (bool \<rightharpoonup> rat)"
  PROBS_mutation :: rat

text \<open>The module global \<^verbatim>\<open>PROBS\<close>.\<close>

definition PROBS :: probs where
  "PROBS =
     \<lparr>PROBS_gene = [2 \<mapsto> 1 / 100, 1 \<mapsto> 3 / 100, 0 \<mapsto> 96 / 100],
      PROBS_trait =
        [2 \<mapsto> [True \<mapsto> 65 / 100, False \<mapsto> 35 / 100],
         1 \<mapsto> [True \<mapsto> 56 / 100, False \<mapsto> 44 / 100],
         0 \<mapsto> [True \<mapsto> 1 / 100, False \<mapsto> 99 / 100]],
      PROBS_mutation = 1 / 100\<rparr>"

text \<open>One row of the data file, as \<^verbatim>\<open>load_data\<close> builds it.\<close>

record person =
  name :: string
  mother :: "string option"
  father :: "string option"
  trait :: "bool option"

text \<open>
  The dictionary \<^verbatim>\<open>people\<close>, in insertion order. Its keys are distinct; the
  theorems that need this say so.
\<close>

type_synonym people = "(string \<times> person) list"

type_synonym table = "(nat \<times> nat) \<rightharpoonup> (nat \<rightharpoonup> rat)"

section \<open>\<^verbatim>\<open>prob_table\<close>\<close>

text \<open>The local dictionary \<^verbatim>\<open>parent\<close> of \<^verbatim>\<open>prob_table\<close>.\<close>

definition parent :: "nat \<rightharpoonup> rat" where
  "parent = [0 \<mapsto> 1 / 100, 1 \<mapsto> 50 / 100, 2 \<mapsto> 99 / 100]"

text \<open>The body of the inner loop: the entry for one pair \<open>(mg, fg)\<close>.\<close>

definition prob_table_entry :: "nat \<Rightarrow> nat \<Rightarrow> error + (nat \<rightharpoonup> rat)" where
  "prob_table_entry mg fg =
     ebind (subscript parent mg) (\<lambda>pm.
     ebind (subscript parent fg) (\<lambda>pf.
       let a = (1 - pm) * (1 - pf);
           b = (pm * (1 - pf)) + ((1 - pm) * pf);
           c = pm * pf
       in Inr (Map.empty(0 \<mapsto> a, 1 \<mapsto> b, 2 \<mapsto> c))))"

text \<open>
  \<^verbatim>\<open>prob_table\<close> takes no argument in the source. The module global \<^verbatim>\<open>PROBS\<close> is
  in its scope, so the model passes it explicitly; the right-hand side never reads it.
\<close>

definition prob_table :: "probs \<Rightarrow> error + table" where
  "prob_table P =
     for_each (\<lambda>mg.
       for_each (\<lambda>fg table.
         ebind (prob_table_entry mg fg) (\<lambda>entry. Inr (table((mg, fg) \<mapsto> entry))))
       [0..<3])
     [0..<3] Map.empty"

section \<open>\<^verbatim>\<open>joint_probability\<close>\<close>

text \<open>
  \<^verbatim>\<open>value['mother'] in one_gene\<close>: the field may be \<^verbatim>\<open>None\<close>, which is a member of
  no set of names.
\<close>

definition contains :: "string set \<Rightarrow> string option \<Rightarrow> bool" where
  "contains S x = (case x of None \<Rightarrow> False | Some n \<Rightarrow> n \<in> S)"

text \<open>The body of the loop over \<^verbatim>\<open>people.items()\<close>, up to \<^verbatim>\<open>p = pt * pg\<close>.\<close>

definition person_probability ::
  "probs \<Rightarrow> table \<Rightarrow> string set \<Rightarrow> string set \<Rightarrow> string set \<Rightarrow> string \<Rightarrow> person \<Rightarrow> error + rat" where
  "person_probability P table one_gene two_genes have_trait person value =
     (if mother value = None \<and> father value = None then
        (if person \<in> have_trait then
           (if person \<in> one_gene then
              ebind (subscript (PROBS_gene P) 1) (\<lambda>pg.
              ebind (ebind (subscript (PROBS_trait P) 1) (\<lambda>d. subscript d True)) (\<lambda>pt.
              Inr (pt * pg)))
            else if person \<in> two_genes then
              ebind (subscript (PROBS_gene P) 2) (\<lambda>pg.
              ebind (ebind (subscript (PROBS_trait P) 2) (\<lambda>d. subscript d True)) (\<lambda>pt.
              Inr (pt * pg)))
            else
              ebind (subscript (PROBS_gene P) 0) (\<lambda>pg.
              ebind (ebind (subscript (PROBS_trait P) 0) (\<lambda>d. subscript d True)) (\<lambda>pt.
              Inr (pt * pg))))
         else
           (if person \<in> one_gene then
              ebind (subscript (PROBS_gene P) 1) (\<lambda>pg.
              ebind (ebind (subscript (PROBS_trait P) 1) (\<lambda>d. subscript d False)) (\<lambda>pt.
              Inr (pt * pg)))
            else if person \<in> two_genes then
              ebind (subscript (PROBS_gene P) 2) (\<lambda>pg.
              ebind (ebind (subscript (PROBS_trait P) 2) (\<lambda>d. subscript d False)) (\<lambda>pt.
              Inr (pt * pg)))
            else
              ebind (subscript (PROBS_gene P) 0) (\<lambda>pg.
              ebind (ebind (subscript (PROBS_trait P) 0) (\<lambda>d. subscript d False)) (\<lambda>pt.
              Inr (pt * pg)))))
      else
        (let mg = (if contains one_gene (mother value) then 1
                   else if contains two_genes (mother value) then 2
                   else 0);
             fg = (if contains one_gene (father value) then 1
                   else if contains two_genes (father value) then 2
                   else 0)
         in
           if person \<in> have_trait then
             (if person \<in> one_gene then
                ebind (ebind (subscript (PROBS_trait P) 1) (\<lambda>d. subscript d True)) (\<lambda>pt.
                ebind (ebind (subscript table (mg, fg)) (\<lambda>d. subscript d 1)) (\<lambda>pg.
                Inr (pt * pg)))
              else if person \<in> two_genes then
                ebind (ebind (subscript (PROBS_trait P) 2) (\<lambda>d. subscript d True)) (\<lambda>pt.
                ebind (ebind (subscript table (mg, fg)) (\<lambda>d. subscript d 2)) (\<lambda>pg.
                Inr (pt * pg)))
              else
                ebind (ebind (subscript (PROBS_trait P) 0) (\<lambda>d. subscript d True)) (\<lambda>pt.
                ebind (ebind (subscript table (mg, fg)) (\<lambda>d. subscript d 0)) (\<lambda>pg.
                Inr (pt * pg))))
           else
             (if person \<in> one_gene then
                ebind (ebind (subscript (PROBS_trait P) 1) (\<lambda>d. subscript d False)) (\<lambda>pt.
                ebind (ebind (subscript table (mg, fg)) (\<lambda>d. subscript d 1)) (\<lambda>pg.
                Inr (pt * pg)))
              else if person \<in> two_genes then
                ebind (ebind (subscript (PROBS_trait P) 2) (\<lambda>d. subscript d False)) (\<lambda>pt.
                ebind (ebind (subscript table (mg, fg)) (\<lambda>d. subscript d 2)) (\<lambda>pg.
                Inr (pt * pg)))
              else
                ebind (ebind (subscript (PROBS_trait P) 0) (\<lambda>d. subscript d False)) (\<lambda>pt.
                ebind (ebind (subscript table (mg, fg)) (\<lambda>d. subscript d 0)) (\<lambda>pg.
                Inr (pt * pg))))))"

text \<open>
  \<^verbatim>\<open>joint_probability\<close> reads the module global \<^verbatim>\<open>PROBS\<close>, here the argument \<open>P\<close>.
  The accumulator \<^verbatim>\<open>joint_p\<close> starts at 1 and is multiplied by each person's \<open>p\<close>.
\<close>

definition joint_probability ::
  "probs \<Rightarrow> people \<Rightarrow> string set \<Rightarrow> string set \<Rightarrow> string set \<Rightarrow> error + rat" where
  "joint_probability P people one_gene two_genes have_trait =
     ebind (prob_table P) (\<lambda>table.
       for_each (\<lambda>(person, value) joint_p.
           ebind (person_probability P table one_gene two_genes have_trait person value)
             (\<lambda>p. Inr (joint_p * p)))
         people 1)"

section \<open>\<^verbatim>\<open>powerset\<close>\<close>

text \<open>
  \<^verbatim>\<open>itertools.combinations(s, r)\<close>: the sublists of length \<open>r\<close>, in the order of the
  positions they take.
\<close>

fun combinations :: "'a list \<Rightarrow> nat \<Rightarrow> 'a list list" where
  "combinations xs 0 = [[]]"
| "combinations [] (Suc r) = []"
| "combinations (x # xs) (Suc r) =
     map ((#) x) (combinations xs r) @ combinations xs (Suc r)"

text \<open>
  The argument is \<^verbatim>\<open>list(s)\<close>: the elements of the set in the order Python iterates
  it. The result chains the combinations of every length from 0 to \<^verbatim>\<open>len(s)\<close>.
\<close>

definition powerset :: "'a list \<Rightarrow> 'a set list" where
  "powerset s = map set (concat (map (combinations s) [0..<length s + 1]))"

section \<open>\<^verbatim>\<open>update\<close> and \<^verbatim>\<open>normalize\<close>\<close>

text \<open>
  The accumulator of one person: the dictionaries under the keys \<^verbatim>\<open>"gene"\<close> and
  \<^verbatim>\<open>"trait"\<close>, each in insertion order.
\<close>

record dist =
  dist_gene :: "(nat \<times> rat) list"
  dist_trait :: "(bool \<times> rat) list"

type_synonym probabilities = "(string \<times> dist) list"

text \<open>The augmented assignment \<^verbatim>\<open>d[k] += p\<close>.\<close>

fun add_at :: "'k \<Rightarrow> rat \<Rightarrow> ('k \<times> rat) list \<Rightarrow> error + ('k \<times> rat) list" where
  "add_at k p [] = Inl KeyError"
| "add_at k p ((k', v) # d) =
     (if k' = k then Inr ((k', v + p) # d)
      else ebind (add_at k p d) (\<lambda>d'. Inr ((k', v) # d')))"

text \<open>A loop that rewrites the value of every entry of a dictionary in turn.\<close>

fun for_items :: "('a \<Rightarrow> error + 'b) \<Rightarrow> 'a list \<Rightarrow> error + 'b list" where
  "for_items f [] = Inr []"
| "for_items f (x # xs) =
     ebind (f x) (\<lambda>y. ebind (for_items f xs) (\<lambda>ys. Inr (y # ys)))"

text \<open>The two statements of one branch of \<^verbatim>\<open>update\<close>: the trait bucket, then the gene bucket.\<close>

definition add_both :: "bool \<Rightarrow> nat \<Rightarrow> rat \<Rightarrow> dist \<Rightarrow> error + dist" where
  "add_both t g p d =
     ebind (add_at t p (dist_trait d)) (\<lambda>tr.
     ebind (add_at g p (dist_gene d)) (\<lambda>ge.
     Inr (d\<lparr>dist_gene := ge, dist_trait := tr\<rparr>)))"

definition update ::
  "probabilities \<Rightarrow> string set \<Rightarrow> string set \<Rightarrow> string set \<Rightarrow> rat \<Rightarrow> error + probabilities" where
  "update probabilities one_gene two_genes have_trait p =
     for_items (\<lambda>(person, d).
       ebind
         (if person \<in> have_trait then
            (if person \<in> one_gene then add_both True 1 p d
             else if person \<in> two_genes then add_both True 2 p d
             else add_both True 0 p d)
          else
            (if person \<in> one_gene then add_both False 1 p d
             else if person \<in> two_genes then add_both False 2 p d
             else add_both False 0 p d))
         (\<lambda>d'. Inr (person, d')))
       probabilities"

text \<open>
  One person in \<^verbatim>\<open>normalize\<close>: both scaling factors are computed first, and a sum of
  zero raises \<^verbatim>\<open>ZeroDivisionError\<close>.
\<close>

definition normalize_person :: "dist \<Rightarrow> error + dist" where
  "normalize_person d =
     (if sum_list (map snd (dist_gene d)) = 0 then Inl ZeroDivisionError
      else
        let scale_gene = 1 / sum_list (map snd (dist_gene d)) in
        if sum_list (map snd (dist_trait d)) = 0 then Inl ZeroDivisionError
        else
          let scale_trait = 1 / sum_list (map snd (dist_trait d)) in
          Inr (d\<lparr>dist_gene := map (\<lambda>(value, v). (value, v * scale_gene)) (dist_gene d),
                 dist_trait := map (\<lambda>(value, v). (value, v * scale_trait)) (dist_trait d)\<rparr>))"

definition normalize :: "probabilities \<Rightarrow> error + probabilities" where
  "normalize probabilities =
     for_items (\<lambda>(person, d). ebind (normalize_person d) (\<lambda>d'. Inr (person, d')))
       probabilities"

section \<open>\<^verbatim>\<open>main\<close>\<close>

text \<open>The dictionary comprehension that starts every bucket at 0.\<close>

definition initial_probabilities :: "people \<Rightarrow> probabilities" where
  "initial_probabilities people =
     map (\<lambda>(person, value).
            (person, \<lparr>dist_gene = [(2, 0), (1, 0), (0, 0)],
                      dist_trait = [(True, 0), (False, 0)]\<rparr>))
       people"

text \<open>\<^verbatim>\<open>any(...)\<close> over a generator: it stops at the first true element.\<close>

fun any_of :: "('a \<Rightarrow> error + bool) \<Rightarrow> 'a list \<Rightarrow> error + bool" where
  "any_of f [] = Inr False"
| "any_of f (x # xs) = ebind (f x) (\<lambda>b. if b then Inr True else any_of f xs)"

definition fails_evidence :: "people \<Rightarrow> string list \<Rightarrow> string set \<Rightarrow> error + bool" where
  "fails_evidence people names have_trait =
     any_of (\<lambda>person.
         ebind (subscript (map_of people) person) (\<lambda>value.
         Inr (trait value \<noteq> None \<and> trait value \<noteq> Some (person \<in> have_trait))))
       names"

text \<open>
  The two nested loops over \<^verbatim>\<open>one_gene\<close> and \<^verbatim>\<open>two_genes\<close>, with the loop body as a
  parameter. \<^verbatim>\<open>names - one_gene\<close> keeps the iteration order of \<^verbatim>\<open>names\<close>.
\<close>

definition gene_loops ::
  "(string set \<Rightarrow> string set \<Rightarrow> 's \<Rightarrow> error + 's) \<Rightarrow> string list \<Rightarrow> 's \<Rightarrow> error + 's" where
  "gene_loops body names s =
     for_each (\<lambda>one_gene.
       for_each (\<lambda>two_genes. body one_gene two_genes)
         (powerset (filter (\<lambda>n. n \<notin> one_gene) names)))
     (powerset names) s"

text \<open>The innermost body of \<^verbatim>\<open>main\<close>: \<^verbatim>\<open>joint_probability\<close>, then \<^verbatim>\<open>update\<close>.\<close>

definition accumulate ::
  "probs \<Rightarrow> people \<Rightarrow> string set \<Rightarrow> string set \<Rightarrow> string set \<Rightarrow> probabilities
     \<Rightarrow> error + probabilities" where
  "accumulate P people have_trait one_gene two_genes probabilities =
     ebind (joint_probability P people one_gene two_genes have_trait) (\<lambda>p.
     update probabilities one_gene two_genes have_trait p)"

text \<open>The body of the loop over \<^verbatim>\<open>have_trait\<close>; \<^verbatim>\<open>continue\<close> leaves the accumulator as it is.\<close>

definition trait_step ::
  "probs \<Rightarrow> people \<Rightarrow> string list \<Rightarrow> string set \<Rightarrow> probabilities \<Rightarrow> error + probabilities" where
  "trait_step P people names have_trait probabilities =
     ebind (fails_evidence people names have_trait) (\<lambda>fails.
       if fails then Inr probabilities
       else gene_loops (accumulate P people have_trait) names probabilities)"

text \<open>
  \<^verbatim>\<open>main\<close> from the loaded \<^verbatim>\<open>people\<close> to the normalized accumulator that it prints.
  \<^verbatim>\<open>names = set(people)\<close> is iterated in the order of the dictionary.
\<close>

definition main :: "probs \<Rightarrow> people \<Rightarrow> error + probabilities" where
  "main P people =
     (let names = map fst people in
      ebind (for_each (trait_step P people names) (powerset names)
               (initial_probabilities people))
        normalize)"

text \<open>
  The same three loops without the evidence filter, adding up what
  \<^verbatim>\<open>joint_probability\<close> returns instead of calling \<^verbatim>\<open>update\<close>.
\<close>

definition joint_total :: "probs \<Rightarrow> people \<Rightarrow> error + rat" where
  "joint_total P people =
     (let names = map fst people in
      for_each (\<lambda>have_trait.
          gene_loops (\<lambda>one_gene two_genes total.
              ebind (joint_probability P people one_gene two_genes have_trait)
                (\<lambda>p. Inr (total + p)))
            names)
        (powerset names) 0)"

section \<open>Definitions used in the statements\<close>

text \<open>
  The hypothesized gene count of a person, and of a parent field; a parent field that is
  \<^verbatim>\<open>None\<close> counts as 0, since \<^verbatim>\<open>None\<close> is in neither set.
\<close>

definition gene_count :: "string set \<Rightarrow> string set \<Rightarrow> string \<Rightarrow> nat" where
  "gene_count one_gene two_genes person =
     (if person \<in> one_gene then 1 else if person \<in> two_genes then 2 else 0)"

definition parent_count :: "string set \<Rightarrow> string set \<Rightarrow> string option \<Rightarrow> nat" where
  "parent_count one_gene two_genes x =
     (case x of None \<Rightarrow> 0 | Some n \<Rightarrow> gene_count one_gene two_genes n)"

text \<open>
  The factor of one person as the specification words it: the gene factor is
  \<^verbatim>\<open>PROBS['gene'][g]\<close> without parents and \<^verbatim>\<open>table[(mg, fg)][g]\<close> with them, the trait
  factor is \<^verbatim>\<open>PROBS['trait'][g][t]\<close>. It is \<open>None\<close> where a key is missing.
\<close>

definition spec_factor ::
  "table \<Rightarrow> string set \<Rightarrow> string set \<Rightarrow> string set \<Rightarrow> string \<Rightarrow> person \<Rightarrow> rat option" where
  "spec_factor table one_gene two_genes have_trait person value =
     (let g = gene_count one_gene two_genes person;
          mg = parent_count one_gene two_genes (mother value);
          fg = parent_count one_gene two_genes (father value)
      in case (if mother value = None \<and> father value = None then PROBS_gene PROBS g
               else Option.bind (table (mg, fg)) (\<lambda>d. d g),
               Option.bind (PROBS_trait PROBS g) (\<lambda>d. d (person \<in> have_trait))) of
           (Some pg, Some pt) \<Rightarrow> Some (pg * pt)
         | _ \<Rightarrow> None)"

text \<open>The transmission formula of the specification, for a mutation rate \<open>\<mu>\<close>.\<close>

definition pass_prob :: "rat \<Rightarrow> nat \<Rightarrow> rat" where
  "pass_prob \<mu> g = of_nat g / 2 * (1 - \<mu>) + (1 - of_nat g / 2) * \<mu>"

text \<open>
  Closed forms of the values the dictionaries hold, for the proofs: the value of
  \<^verbatim>\<open>parent\<close>, the entries of the table, the prior, the trait table, and the factor of
  one person. Outside the keys 0, 1, 2 they are 0; the lemmas below use them at those
  keys only.
\<close>

definition pass :: "nat \<Rightarrow> rat" where
  "pass g = (case parent g of Some p \<Rightarrow> p | None \<Rightarrow> 0)"

definition child_gene :: "nat \<Rightarrow> nat \<Rightarrow> nat \<Rightarrow> rat" where
  "child_gene mg fg g =
     (if g = 0 then (1 - pass mg) * (1 - pass fg)
      else if g = 1 then pass mg * (1 - pass fg) + (1 - pass mg) * pass fg
      else pass mg * pass fg)"

definition child_table :: table where
  "child_table = (\<lambda>(mg, fg). if mg < 3 \<and> fg < 3
      then Some (\<lambda>g. if g < 3 then Some (child_gene mg fg g) else None) else None)"

definition gene_p :: "nat \<Rightarrow> rat" where
  "gene_p g = (case PROBS_gene PROBS g of Some p \<Rightarrow> p | None \<Rightarrow> 0)"

definition trait_p :: "nat \<Rightarrow> bool \<Rightarrow> rat" where
  "trait_p g t =
     (case PROBS_trait PROBS g of None \<Rightarrow> 0
      | Some d \<Rightarrow> (case d t of None \<Rightarrow> 0 | Some p \<Rightarrow> p))"

definition factor :: "string set \<Rightarrow> string set \<Rightarrow> string set \<Rightarrow> string \<Rightarrow> person \<Rightarrow> rat" where
  "factor one_gene two_genes have_trait person value =
     (if mother value = None \<and> father value = None
      then gene_p (gene_count one_gene two_genes person)
      else child_gene (parent_count one_gene two_genes (mother value))
             (parent_count one_gene two_genes (father value))
             (gene_count one_gene two_genes person))
     * trait_p (gene_count one_gene two_genes person) (person \<in> have_trait)"

text \<open>
  A dictionary of numbers after normalization as the specification words it: every value
  divided by the sum of the values.
\<close>

definition scaled :: "('k \<times> rat) list \<Rightarrow> ('k \<times> rat) list" where
  "scaled d = map (\<lambda>(k, v). (k, v / sum_list (map snd d))) d"

text \<open>
  The hypothesis of the claim on the total: every person has both parents, and both are
  keys of the pedigree, or has neither.
\<close>

definition well_formed :: "people \<Rightarrow> bool" where
  "well_formed people =
     (\<forall>(person, value) \<in> set people.
        (mother value = None \<and> father value = None) \<or>
        (\<exists>m f. mother value = Some m \<and> father value = Some f \<and>
           m \<in> fst ` set people \<and> f \<in> fst ` set people))"

text \<open>
  The pairs (child, parent) that the pedigree records. When this relation is acyclic, no
  person is their own ancestor.
\<close>

definition parent_rel :: "people \<Rightarrow> (string \<times> string) set" where
  "parent_rel people =
     {(child, p). \<exists>value. (child, value) \<in> set people \<and>
        (mother value = Some p \<or> father value = Some p)}"

text \<open>
  For the proof about the total: the record stored under a key, the recorded parents of
  the members of a set of names, the total as a sum over sets of names, and the gene
  factor of one person.
\<close>

definition record_of :: "people \<Rightarrow> string \<Rightarrow> person" where
  "record_of people n = the (map_of people n)"

definition parents_in :: "(string \<Rightarrow> person) \<Rightarrow> string set \<Rightarrow> (string \<times> string) set" where
  "parents_in rec N =
     {(c, p). c \<in> N \<and> (mother (rec c) = Some p \<or> father (rec c) = Some p)}"

definition total :: "(string \<Rightarrow> person) \<Rightarrow> string set \<Rightarrow> rat" where
  "total rec N =
     (\<Sum>ht\<in>Pow N. \<Sum>og\<in>Pow N. \<Sum>tg\<in>Pow (N - og). \<Prod>n\<in>N. factor og tg ht n (rec n))"

definition gene_factor :: "person \<Rightarrow> nat \<Rightarrow> nat \<Rightarrow> nat \<Rightarrow> rat" where
  "gene_factor v mg fg g =
     (if mother v = None \<and> father v = None then gene_p g else child_gene mg fg g)"

section \<open>Evaluating the dictionaries\<close>

lemma ebind_Inr: "ebind (Inr v) f = f v" and ebind_Inl: "ebind (Inl e) f = Inl e"
  by (simp_all add: ebind_def)

lemma upt3: "[0..<3] = [0, 1, 2]"
  by (simp add: numeral_3_eq_3 upt_rec)

lemma lt3: "(n::nat) < 3 \<longleftrightarrow> n = 0 \<or> n = 1 \<or> n = 2"
  by auto

lemma parent_pass: "g < 3 \<Longrightarrow> parent g = Some (pass g)"
  by (auto simp: lt3 pass_def parent_def)

lemma prob_table_entry_val:
  "mg < 3 \<Longrightarrow> fg < 3 \<Longrightarrow>
     prob_table_entry mg fg = Inr (\<lambda>g. if g < 3 then Some (child_gene mg fg g) else None)"
  by (auto simp: prob_table_entry_def ebind_def subscript_def parent_pass Let_def
      child_gene_def lt3)

lemma prob_table_val: "prob_table P = Inr child_table"
  unfolding prob_table_def upt3
  by (auto simp: ebind_def prob_table_entry_val child_table_def lt3)

lemma gene_count_lt3: "gene_count og tg n < 3"
  by (simp add: gene_count_def)

lemma parent_count_lt3: "parent_count og tg x < 3"
  by (simp add: parent_count_def gene_count_lt3 split: option.split)

lemma PROBS_gene_val: "g < 3 \<Longrightarrow> PROBS_gene PROBS g = Some (gene_p g)"
  by (auto simp: lt3 gene_p_def PROBS_def)

lemma PROBS_trait_val:
  "g < 3 \<Longrightarrow> \<exists>d. PROBS_trait PROBS g = Some d \<and> d t = Some (trait_p g t)"
  by (cases t) (auto simp: lt3 trait_p_def PROBS_def)

lemma subscript_trait:
  "g < 3 \<Longrightarrow> ebind (subscript (PROBS_trait PROBS) g) (\<lambda>d. subscript d t) = Inr (trait_p g t)"
  using PROBS_trait_val [of g t] by (auto simp: ebind_def subscript_def)

lemma subscript_gene: "g < 3 \<Longrightarrow> subscript (PROBS_gene PROBS) g = Inr (gene_p g)"
  by (simp add: subscript_def PROBS_gene_val)

lemma subscript_child:
  "mg < 3 \<Longrightarrow> fg < 3 \<Longrightarrow> g < 3 \<Longrightarrow>
     ebind (subscript child_table (mg, fg)) (\<lambda>d. subscript d g) = Inr (child_gene mg fg g)"
  by (simp add: ebind_def subscript_def child_table_def)

lemma contains_count:
  "(if contains og x then 1 else if contains tg x then 2 else 0) = parent_count og tg x"
  by (simp add: contains_def parent_count_def gene_count_def split: option.split)

section \<open>\<^verbatim>\<open>joint_probability\<close> is a product of factors\<close>

lemma person_probability_val:
  "person_probability PROBS child_table og tg ht n v = Inr (factor og tg ht n v)"
  unfolding person_probability_def contains_count Let_def factor_def gene_count_def
  by (simp add: subscript_trait subscript_gene subscript_child parent_count_lt3 ebind_Inr)

lemma for_each_product:
  assumes "\<And>x. x \<in> set xs \<Longrightarrow> f x = Inr (g x)"
  shows "for_each (\<lambda>x acc. ebind (f x) (\<lambda>p. Inr (acc * p))) xs a
           = Inr (a * prod_list (map g xs))"
  using assms by (induction xs arbitrary: a) (simp_all add: ebind_Inr mult.assoc)

lemma joint_probability_val:
  "joint_probability PROBS people og tg ht =
     Inr (prod_list (map (\<lambda>(n, v). factor og tg ht n v) people))"
proof -
  have "for_each (\<lambda>x joint_p.
           ebind (person_probability PROBS child_table og tg ht (fst x) (snd x))
             (\<lambda>p. Inr (joint_p * p))) people 1
        = Inr (1 * prod_list (map (\<lambda>x. factor og tg ht (fst x) (snd x)) people))"
    by (rule for_each_product) (simp add: person_probability_val)
  then show ?thesis
    by (simp add: joint_probability_def prob_table_val ebind_Inr case_prod_unfold)
qed

lemma spec_factor_val:
  "spec_factor child_table og tg ht n v = Some (factor og tg ht n v)"
proof -
  obtain d where "PROBS_trait PROBS (gene_count og tg n) = Some d"
    "d (n \<in> ht) = Some (trait_p (gene_count og tg n) (n \<in> ht))"
    using PROBS_trait_val [OF gene_count_lt3] by blast
  then show ?thesis
    by (simp add: spec_factor_def factor_def Let_def PROBS_gene_val gene_count_lt3
        parent_count_lt3 child_table_def)
qed

text \<open>
  C1: for every pedigree and every hypothesis, \<^verbatim>\<open>joint_probability\<close> returns the product
  over the people of the gene factor times the trait factor: \<^verbatim>\<open>PROBS['gene'][g]\<close> for a
  person with neither parent, \<^verbatim>\<open>table[(mg, fg)][g]\<close> otherwise, times
  \<^verbatim>\<open>PROBS['trait'][g][t]\<close>. Membership in \<^verbatim>\<open>one_gene\<close> is tested first, so the two gene
  sets need not even be disjoint.
\<close>

theorem joint_probability_is_product:
  "\<exists>table ps.
     prob_table PROBS = Inr table \<and>
     map (\<lambda>(person, value). spec_factor table one_gene two_genes have_trait person value) people
       = map Some ps \<and>
     joint_probability PROBS people one_gene two_genes have_trait = Inr (prod_list ps)"
  by (intro exI [of _ child_table]
        exI [of _ "map (\<lambda>(n, v). factor one_gene two_genes have_trait n v) people"])
     (simp add: prob_table_val joint_probability_val spec_factor_val case_prod_unfold)

section \<open>The child-gene table\<close>

text \<open>
  C4: for every pair \<open>(mg, fg)\<close> of gene counts, the table built by \<^verbatim>\<open>prob_table\<close> has an
  entry with exactly the keys 0, 1 and 2, and its three values add up to 1.
\<close>

theorem prob_table_rows_sum_to_one:
  assumes "mg \<in> {0, 1, 2}" and "fg \<in> {0, 1, 2}"
  shows "\<exists>table entry a b c.
           prob_table PROBS = Inr table \<and> table (mg, fg) = Some entry \<and>
           dom entry = {0, 1, 2} \<and>
           entry 0 = Some a \<and> entry 1 = Some b \<and> entry 2 = Some c \<and>
           a + b + c = 1"
proof -
  from assms have lt: "mg < 3" "fg < 3" by auto
  let ?entry = "\<lambda>g. if g < 3 then Some (child_gene mg fg g) else None"
  have "child_table (mg, fg) = Some ?entry"
    using lt by (simp add: child_table_def)
  moreover have "dom ?entry = {0, 1, 2}"
    by (auto simp: dom_def)
  moreover have "child_gene mg fg 0 + child_gene mg fg 1 + child_gene mg fg 2 = 1"
    by (simp add: child_gene_def algebra_simps)
  ultimately show ?thesis
    using prob_table_val [of PROBS] by (intro exI [of _ child_table] exI [of _ ?entry]) simp
qed

theorem prob_table_rows_sum_to_one_witness:
  "\<exists>table entry a b c.
     prob_table PROBS = Inr table \<and> table (1, 2) = Some entry \<and>
     dom entry = {0, 1, 2} \<and>
     entry 0 = Some a \<and> entry 1 = Some b \<and> entry 2 = Some c \<and>
     a + b + c = 1"
  using prob_table_rows_sum_to_one [of 1 2] by simp

text \<open>
  C6: for every parent gene count \<open>g\<close> in 0, 1, 2, the transmission probability that
  \<^verbatim>\<open>prob_table\<close> uses is the formula \<open>g/2 * (1 - \<mu>) + (1 - g/2) * \<mu>\<close> at the mutation
  rate of \<^verbatim>\<open>PROBS\<close>, that is 0.01, 0.50 and 0.99, and every entry of the table is built
  from these values.
\<close>

theorem parent_is_pass_prob:
  assumes "g \<in> {0, 1, 2}"
  shows "parent g = Some (pass_prob (PROBS_mutation PROBS) g) \<and>
         PROBS_mutation PROBS = 1 / 100 \<and>
         parent 0 = Some (1 / 100) \<and> parent 1 = Some (50 / 100) \<and> parent 2 = Some (99 / 100) \<and>
         (\<forall>fg \<in> {0, 1, 2}.
            prob_table_entry g fg =
              Inr [0 \<mapsto> (1 - pass_prob (PROBS_mutation PROBS) g)
                          * (1 - pass_prob (PROBS_mutation PROBS) fg),
                   1 \<mapsto> pass_prob (PROBS_mutation PROBS) g
                          * (1 - pass_prob (PROBS_mutation PROBS) fg)
                         + (1 - pass_prob (PROBS_mutation PROBS) g)
                          * pass_prob (PROBS_mutation PROBS) fg,
                   2 \<mapsto> pass_prob (PROBS_mutation PROBS) g
                          * pass_prob (PROBS_mutation PROBS) fg])"
proof -
  have mu: "PROBS_mutation PROBS = 1 / 100"
    by (simp add: PROBS_def)
  have p: "parent n = Some (pass_prob (1 / 100) n)" if "n \<in> {0, 1, 2}" for n
    using that by (auto simp: parent_def pass_prob_def)
  have "prob_table_entry g fg =
          Inr [0 \<mapsto> (1 - pass_prob (1 / 100) g) * (1 - pass_prob (1 / 100) fg),
               1 \<mapsto> pass_prob (1 / 100) g * (1 - pass_prob (1 / 100) fg)
                     + (1 - pass_prob (1 / 100) g) * pass_prob (1 / 100) fg,
               2 \<mapsto> pass_prob (1 / 100) g * pass_prob (1 / 100) fg]"
    if "fg \<in> {0, 1, 2}" for fg
    using p [OF assms] p [OF that]
    by (simp add: prob_table_entry_def subscript_def ebind_Inr Let_def)
  moreover have "parent 0 = Some (1 / 100) \<and> parent 1 = Some (50 / 100) \<and>
      parent 2 = Some (99 / 100)"
    by (simp add: parent_def)
  ultimately show ?thesis
    unfolding mu using p [OF assms] by blast
qed

theorem parent_is_pass_prob_witness:
  "(2::nat) \<in> {0, 1, 2} \<and> parent 2 = Some (pass_prob (PROBS_mutation PROBS) 2) \<and>
   pass_prob (PROBS_mutation PROBS) 2 = 99 / 100"
  using parent_is_pass_prob [of 2] by (simp add: pass_prob_def PROBS_def)

section \<open>The mutation constant\<close>

lemma person_probability_mutation:
  "person_probability (P\<lparr>PROBS_mutation := m\<rparr>) table og tg ht n v =
     person_probability P table og tg ht n v"
  by (simp add: person_probability_def cong: if_cong)

text \<open>
  C10: two runs that differ only in the value of \<^verbatim>\<open>PROBS['mutation']\<close> give the same
  result, for \<^verbatim>\<open>joint_probability\<close> on every input and for \<^verbatim>\<open>prob_table\<close>: the constant
  is never read.
\<close>

theorem mutation_never_read:
  "joint_probability (P\<lparr>PROBS_mutation := m\<rparr>) people one_gene two_genes have_trait =
     joint_probability P people one_gene two_genes have_trait \<and>
   prob_table (P\<lparr>PROBS_mutation := m\<rparr>) = prob_table P"
  by (simp add: joint_probability_def person_probability_mutation prob_table_def)

section \<open>No exception leaves \<^verbatim>\<open>joint_probability\<close>\<close>

lemma gene_p_bounds: "0 \<le> gene_p g \<and> gene_p g \<le> 1"
  by (simp add: gene_p_def PROBS_def)

lemma trait_p_bounds: "0 \<le> trait_p g t \<and> trait_p g t \<le> 1"
  by (cases t) (simp_all add: trait_p_def PROBS_def)

lemma child_gene_bounds:
  "mg < 3 \<Longrightarrow> fg < 3 \<Longrightarrow> 0 \<le> child_gene mg fg g \<and> child_gene mg fg g \<le> 1"
  by (auto simp: lt3 child_gene_def pass_def parent_def)

lemma factor_bounds: "0 \<le> factor og tg ht n v \<and> factor og tg ht n v \<le> 1"
  unfolding factor_def
  using gene_p_bounds trait_p_bounds child_gene_bounds [OF parent_count_lt3 parent_count_lt3]
  by (simp add: mult_le_one)

lemma prod_list_bounds:
  "(\<And>x. x \<in> set xs \<Longrightarrow> 0 \<le> (x::rat) \<and> x \<le> 1) \<Longrightarrow> 0 \<le> prod_list xs \<and> prod_list xs \<le> 1"
  by (induction xs) (auto simp: mult_le_one)

lemma joint_probability_bounds:
  "\<exists>p. joint_probability PROBS people og tg ht = Inr p \<and> 0 \<le> p \<and> p \<le> 1"
  unfolding joint_probability_val
  by (rule exI, rule conjI [OF refl], rule prod_list_bounds) (auto simp: factor_bounds)

text \<open>
  C8, as the code has it: \<^verbatim>\<open>joint_probability\<close> checks nothing. For a hypothesis that
  names someone outside the pedigree it raises no exception and returns a number between
  0 and 1, as for every other hypothesis.
\<close>

theorem joint_probability_unknown_name:
  assumes "\<not> one_gene \<union> two_genes \<union> have_trait \<subseteq> fst ` set people"
  shows "\<exists>p. joint_probability PROBS people one_gene two_genes have_trait = Inr p \<and>
             0 \<le> p \<and> p \<le> 1"
  by (rule joint_probability_bounds)

theorem joint_probability_unknown_name_witness:
  "\<not> {''Z''} \<union> {} \<union> {}
       \<subseteq> fst ` set [(''A'', \<lparr>name = ''A'', mother = None, father = None, trait = None\<rparr>)] \<and>
   (\<exists>p. joint_probability PROBS
           [(''A'', \<lparr>name = ''A'', mother = None, father = None, trait = None\<rparr>)]
           {''Z''} {} {} = Inr p \<and> 0 \<le> p \<and> p \<le> 1)"
  using joint_probability_unknown_name [of "{''Z''}" "{}" "{}"
      "[(''A'', \<lparr>name = ''A'', mother = None, father = None, trait = None\<rparr>)]"]
  by simp

text \<open>
  The claim as the specification states it fails: with the one-person pedigree \<open>A\<close> and
  \<^verbatim>\<open>one_gene = {"Z"}\<close> the call returns \<open>0.96 * 0.99\<close>.
\<close>

theorem joint_probability_unknown_name_counterexample:
  "\<not> {''Z''} \<union> {} \<union> {}
       \<subseteq> fst ` set [(''A'', \<lparr>name = ''A'', mother = None, father = None, trait = None\<rparr>)] \<and>
   joint_probability PROBS
     [(''A'', \<lparr>name = ''A'', mother = None, father = None, trait = None\<rparr>)]
     {''Z''} {} {} = Inr (594 / 625)"
  unfolding joint_probability_val
  by (simp add: factor_def gene_count_def gene_p_def trait_p_def PROBS_def)

section \<open>Half-orphans\<close>

text \<open>
  C9: a record with exactly one of \<^verbatim>\<open>mother\<close> and \<^verbatim>\<open>father\<close> absent raises no error. It
  takes the branch for children: its gene factor is the table entry at the two parent
  counts, where the absent parent counts 0, and \<^verbatim>\<open>joint_probability\<close> returns a number
  for every pedigree that holds such a record.
\<close>

theorem half_orphan_child_branch:
  assumes "(mother value = None) \<noteq> (father value = None)"
  shows "\<exists>table entry pg pt.
     prob_table PROBS = Inr table \<and>
     table (parent_count og tg (mother value), parent_count og tg (father value)) = Some entry \<and>
     entry (gene_count og tg person) = Some pg \<and>
     Option.bind (PROBS_trait PROBS (gene_count og tg person)) (\<lambda>d. d (person \<in> ht)) = Some pt \<and>
     person_probability PROBS table og tg ht person value = Inr (pt * pg) \<and>
     (mother value = None \<longrightarrow> parent_count og tg (mother value) = 0) \<and>
     (father value = None \<longrightarrow> parent_count og tg (father value) = 0) \<and>
     (\<forall>people. (person, value) \<in> set people \<longrightarrow>
        (\<exists>p. joint_probability PROBS people og tg ht = Inr p))"
proof -
  let ?mg = "parent_count og tg (mother value)" and ?fg = "parent_count og tg (father value)"
  let ?g = "gene_count og tg person"
  let ?entry = "\<lambda>g. if g < 3 then Some (child_gene ?mg ?fg g) else None"
  obtain d where d: "PROBS_trait PROBS ?g = Some d"
    "d (person \<in> ht) = Some (trait_p ?g (person \<in> ht))"
    using PROBS_trait_val [OF gene_count_lt3] by blast
  have 1: "child_table (?mg, ?fg) = Some ?entry"
    by (simp add: child_table_def parent_count_lt3)
  have 2: "?entry ?g = Some (child_gene ?mg ?fg ?g)"
    by (simp add: gene_count_lt3)
  have 3: "Option.bind (PROBS_trait PROBS ?g) (\<lambda>d. d (person \<in> ht))
      = Some (trait_p ?g (person \<in> ht))"
    using d by simp
  have 4: "person_probability PROBS child_table og tg ht person value
      = Inr (trait_p ?g (person \<in> ht) * child_gene ?mg ?fg ?g)"
    using assms by (auto simp: person_probability_val factor_def)
  have 5: "\<forall>people. (person, value) \<in> set people \<longrightarrow>
        (\<exists>p. joint_probability PROBS people og tg ht = Inr p)"
    by (simp add: joint_probability_val)
  show ?thesis
    apply (rule exI [of _ child_table], rule exI [of _ ?entry])
    apply (rule exI [of _ "child_gene ?mg ?fg ?g"], rule exI [of _ "trait_p ?g (person \<in> ht)"])
    using 1 2 3 4 5 prob_table_val [of PROBS] by (simp add: parent_count_def)
qed

theorem half_orphan_child_branch_witness:
  "(mother \<lparr>name = ''B'', mother = None, father = Some ''A'', trait = None\<rparr> = None)
     \<noteq> (father \<lparr>name = ''B'', mother = None, father = Some ''A'', trait = None\<rparr> = None) \<and>
   (\<exists>p. joint_probability PROBS
          [(''B'', \<lparr>name = ''B'', mother = None, father = Some ''A'', trait = None\<rparr>)]
          {''A''} {} {} = Inr p)"
proof -
  let ?v = "\<lparr>name = ''B'', mother = None, father = Some ''A'', trait = None\<rparr>"
  have h: "(mother ?v = None) \<noteq> (father ?v = None)"
    by simp
  from half_orphan_child_branch [OF h, of "{''A''}" "{}" "''B''" "{}"]
  have "\<forall>people. (''B'', ?v) \<in> set people \<longrightarrow>
          (\<exists>p. joint_probability PROBS people {''A''} {} {} = Inr p)"
    by blast
  from this [rule_format, of "[(''B'', ?v)]"] h show ?thesis
    by simp
qed

section \<open>\<^verbatim>\<open>normalize\<close>\<close>

lemma for_items_map:
  "(\<And>x. x \<in> set xs \<Longrightarrow> f x = Inr (g x)) \<Longrightarrow> for_items f xs = Inr (map g xs)"
  by (induction xs) (simp_all add: ebind_Inr)

lemma sum_scaled:
  assumes "sum_list (map snd d) \<noteq> 0"
  shows "sum_list (map snd (scaled d)) = 1"
proof -
  have "sum_list (map snd (scaled d)) = (\<Sum>x\<leftarrow>d. snd x * inverse (sum_list (map snd d)))"
    by (simp add: scaled_def comp_def case_prod_unfold divide_inverse)
  also have "\<dots> = sum_list (map snd d) * inverse (sum_list (map snd d))"
    by (simp add: sum_list_mult_const)
  finally show ?thesis
    using assms by simp
qed

lemma normalize_person_val:
  "sum_list (map snd (dist_gene d)) \<noteq> 0 \<Longrightarrow> sum_list (map snd (dist_trait d)) \<noteq> 0 \<Longrightarrow>
   normalize_person d =
     Inr (d\<lparr>dist_gene := scaled (dist_gene d), dist_trait := scaled (dist_trait d)\<rparr>)"
  by (simp add: normalize_person_def scaled_def Let_def divide_inverse)

text \<open>
  C3: when for every person the gene buckets and the trait buckets each have a nonzero
  sum, \<^verbatim>\<open>normalize\<close> succeeds, every value becomes its old value divided by the old sum
  of its distribution, and afterwards each distribution sums to 1.
\<close>

theorem normalize_rescales:
  assumes "\<forall>(person, d) \<in> set probabilities.
             sum_list (map snd (dist_gene d)) \<noteq> 0 \<and> sum_list (map snd (dist_trait d)) \<noteq> 0"
  shows "\<exists>out. normalize probabilities = Inr out \<and>
           out = map (\<lambda>(person, d).
                   (person, d\<lparr>dist_gene := scaled (dist_gene d),
                                dist_trait := scaled (dist_trait d)\<rparr>)) probabilities \<and>
           (\<forall>(person, d) \<in> set out.
              sum_list (map snd (dist_gene d)) = 1 \<and> sum_list (map snd (dist_trait d)) = 1)"
proof -
  let ?g = "\<lambda>(person, d). (person, d\<lparr>dist_gene := scaled (dist_gene d),
                                dist_trait := scaled (dist_trait d)\<rparr>)"
  have "normalize probabilities = Inr (map ?g probabilities)"
    unfolding normalize_def
    by (rule for_items_map) (use assms in \<open>auto simp: normalize_person_val ebind_Inr\<close>)
  moreover have "\<forall>(person, d) \<in> set (map ?g probabilities).
      sum_list (map snd (dist_gene d)) = 1 \<and> sum_list (map snd (dist_trait d)) = 1"
    using assms by (auto simp: sum_scaled)
  ultimately show ?thesis
    by blast
qed

theorem normalize_rescales_witness:
  "normalize
     [(''A'', \<lparr>dist_gene = [(2, 1), (1, 1), (0, 2)], dist_trait = [(True, 3), (False, 1)]\<rparr>)]
     = Inr [(''A'', \<lparr>dist_gene = [(2, 1 / 4), (1, 1 / 4), (0, 1 / 2)],
                     dist_trait = [(True, 3 / 4), (False, 1 / 4)]\<rparr>)]"
  using normalize_rescales [of
      "[(''A'', \<lparr>dist_gene = [(2, 1), (1, 1), (0, 2)], dist_trait = [(True, 3), (False, 1)]\<rparr>)]"]
  by (simp add: scaled_def)

section \<open>The evidence filter\<close>

lemma any_of_val:
  "(\<And>x. x \<in> set xs \<Longrightarrow> f x = Inr (g x)) \<Longrightarrow> any_of f xs = Inr (\<exists>x \<in> set xs. g x)"
  by (induction xs) (auto simp: ebind_Inr)

lemma fails_evidence_val:
  assumes "distinct (map fst people)"
  shows "fails_evidence people (map fst people) have_trait =
     Inr (\<exists>(person, value) \<in> set people.
            trait value \<noteq> None \<and> trait value \<noteq> Some (person \<in> have_trait))"
proof -
  let ?g = "\<lambda>person. \<exists>value. map_of people person = Some value \<and>
              trait value \<noteq> None \<and> trait value \<noteq> Some (person \<in> have_trait)"
  have "fails_evidence people (map fst people) have_trait
          = Inr (\<exists>x \<in> set (map fst people). ?g x)"
    unfolding fails_evidence_def
  proof (rule any_of_val)
    fix x assume "x \<in> set (map fst people)"
    then obtain v where "map_of people x = Some v"
      by (metis map_of_eq_None_iff not_Some_eq set_map)
    then show "ebind (subscript (map_of people) x)
          (\<lambda>value. Inr (trait value \<noteq> None \<and> trait value \<noteq> Some (x \<in> have_trait)))
        = Inr (?g x)"
      by (simp add: subscript_def ebind_Inr)
  qed
  moreover have "(\<exists>x \<in> set (map fst people). ?g x) \<longleftrightarrow>
      (\<exists>(person, value) \<in> set people.
            trait value \<noteq> None \<and> trait value \<noteq> Some (person \<in> have_trait))"
    by (simp add: map_of_eq_Some_iff [OF assms] Bex_def) force
  ultimately show ?thesis
    by simp
qed

text \<open>
  C5: a trait hypothesis is rejected exactly when some person has known trait evidence
  that differs from the person's membership in \<^verbatim>\<open>have_trait\<close>; a rejected hypothesis
  leaves the accumulator untouched, and any other one runs the loops over the gene
  hypotheses.
\<close>

theorem evidence_filter_iff:
  assumes "distinct (map fst people)"
  shows "fails_evidence people (map fst people) have_trait =
           Inr (\<exists>(person, value) \<in> set people.
                  trait value \<noteq> None \<and> trait value \<noteq> Some (person \<in> have_trait)) \<and>
         trait_step P people (map fst people) have_trait probabilities =
           (if \<exists>(person, value) \<in> set people.
                  trait value \<noteq> None \<and> trait value \<noteq> Some (person \<in> have_trait)
            then Inr probabilities
            else gene_loops (accumulate P people have_trait) (map fst people) probabilities)"
  by (simp add: trait_step_def fails_evidence_val [OF assms] ebind_Inr)

theorem evidence_filter_iff_witness:
  "distinct (map fst [(''A'', \<lparr>name = ''A'', mother = None, father = None, trait = Some True\<rparr>)]) \<and>
   fails_evidence [(''A'', \<lparr>name = ''A'', mother = None, father = None, trait = Some True\<rparr>)]
     [''A''] {} = Inr True \<and>
   trait_step PROBS [(''A'', \<lparr>name = ''A'', mother = None, father = None, trait = Some True\<rparr>)]
     [''A''] {} [] = Inr []"
  using evidence_filter_iff [of
      "[(''A'', \<lparr>name = ''A'', mother = None, father = None, trait = Some True\<rparr>)]" "{}" PROBS "[]"]
  by auto

section \<open>One person without parents and without evidence\<close>

lemma upt2: "[0..<2] = [0, 1]"
  by (simp add: numeral_2_eq_2 upt_rec)

lemma powerset_Nil: "powerset [] = [{}]"
  by (simp add: powerset_def)

lemma powerset_single: "powerset [n] = [{}, {n}]"
  by (simp add: powerset_def upt2)

lemma gene_p_vals: "gene_p 0 = 96 / 100" "gene_p (Suc 0) = 3 / 100" "gene_p 2 = 1 / 100"
  by (simp_all add: gene_p_def PROBS_def)

lemma trait_p_vals:
  "trait_p 0 True = 1 / 100" "trait_p 0 False = 99 / 100"
  "trait_p (Suc 0) True = 56 / 100" "trait_p (Suc 0) False = 44 / 100"
  "trait_p 2 True = 65 / 100" "trait_p 2 False = 35 / 100"
  by (simp_all add: trait_p_def PROBS_def)

lemma accumulate_val:
  "accumulate PROBS people ht og tg probabilities =
     update probabilities og tg ht (prod_list (map (\<lambda>(n, v). factor og tg ht n v) people))"
  by (simp add: accumulate_def joint_probability_val ebind_Inr)

text \<open>
  C7: for a pedigree of one person with no mother, no father and no trait evidence,
  \<^verbatim>\<open>main\<close> ends with that person's gene distribution equal to the prior
  \<open>{2: 0.01, 1: 0.03, 0: 0.96}\<close>.
\<close>

theorem single_person_prior:
  "main PROBS [(n, \<lparr>name = nm, mother = None, father = None, trait = None\<rparr>)] =
     Inr [(n, \<lparr>dist_gene = [(2, 1 / 100), (1, 3 / 100), (0, 96 / 100)],
               dist_trait = [(True, 329 / 10000), (False, 9671 / 10000)]\<rparr>)]"
  unfolding main_def Let_def
  by (simp add: powerset_single initial_probabilities_def trait_step_def fails_evidence_def
      subscript_def ebind_Inr gene_loops_def powerset_Nil accumulate_val
      factor_def gene_count_def gene_p_vals trait_p_vals update_def add_both_def
      normalize_def normalize_person_def)

section \<open>The total over the whole enumeration\<close>

subsection \<open>From the loops to sums over sets of names\<close>

lemma combinations_0: "combinations xs 0 = [[]]"
  by (cases xs) simp_all

lemma combinations_too_long: "length xs < r \<Longrightarrow> combinations xs r = []"
  by (induction xs r rule: combinations.induct) simp_all

lemma sum_list_concat_upt:
  "sum_list (map h (concat (map f [0..<n]))) = (\<Sum>r<n. sum_list (map h (f r)))"
  for h :: "'a \<Rightarrow> rat"
  by (induction n) simp_all

lemma sum_combinations:
  "(\<Sum>r<Suc (length xs). sum_list (map h (combinations xs r))) = sum_list (map h (subseqs xs))"
  for h :: "'a list \<Rightarrow> rat"
proof (induction xs arbitrary: h)
  case Nil
  show ?case by simp
next
  case (Cons x xs)
  let ?n = "length xs"
  let ?C = "\<lambda>ys r. sum_list (map h (combinations ys r))"
  have "(\<Sum>r<Suc (Suc ?n). ?C (x # xs) r) = ?C (x # xs) 0 + (\<Sum>r<Suc ?n. ?C (x # xs) (Suc r))"
    by (rule sum.lessThan_Suc_shift)
  also have "\<dots> = h [] + (\<Sum>r<Suc ?n. sum_list (map (h \<circ> (#) x) (combinations xs r)) + ?C xs (Suc r))"
    by (simp add: comp_def)
  also have "\<dots> = (\<Sum>r<Suc ?n. sum_list (map (h \<circ> (#) x) (combinations xs r)))
      + (?C xs 0 + (\<Sum>r<Suc ?n. ?C xs (Suc r)))"
    by (simp add: sum.distrib combinations_0)
  also have "?C xs 0 + (\<Sum>r<Suc ?n. ?C xs (Suc r)) = (\<Sum>r<Suc (Suc ?n). ?C xs r)"
    by (rule sum.lessThan_Suc_shift [symmetric])
  also have "\<dots> = (\<Sum>r<Suc ?n. ?C xs r)"
    by (simp add: combinations_too_long)
  finally have main: "(\<Sum>r<Suc (Suc ?n). ?C (x # xs) r) =
      (\<Sum>r<Suc ?n. sum_list (map (h \<circ> (#) x) (combinations xs r))) + (\<Sum>r<Suc ?n. ?C xs r)" .
  have rhs: "sum_list (map h (subseqs (x # xs))) =
      sum_list (map (h \<circ> (#) x) (subseqs xs)) + sum_list (map h (subseqs xs))"
    by (simp add: Let_def comp_def)
  show ?case
    unfolding length_Cons rhs main Cons.IH ..
qed

lemma sum_list_powerset:
  fixes f :: "'a set \<Rightarrow> rat"
  assumes "distinct xs"
  shows "sum_list (map f (powerset xs)) = sum f (Pow (set xs))"
proof -
  have "sum_list (map f (powerset xs)) = sum_list (map (f \<circ> set) (subseqs xs))"
    unfolding powerset_def map_map
    using sum_list_concat_upt [of "f \<circ> set" "combinations xs" "Suc (length xs)"]
      sum_combinations [of "f \<circ> set" xs]
    by simp
  also have "\<dots> = sum_list (map f (map set (subseqs xs)))"
    by simp
  also have "\<dots> = sum f (set (map set (subseqs xs)))"
    by (rule sum_list_distinct_conv_sum_set) (rule distinct_set_subseqs [OF assms])
  finally show ?thesis
    by (simp add: subseqs_powset)
qed

lemma for_each_sum:
  assumes "\<And>x a. x \<in> set xs \<Longrightarrow> body x a = Inr (a + g x)"
  shows "for_each body xs a = Inr (a + sum_list (map g xs))"
  using assms by (induction xs arbitrary: a) (simp_all add: ebind_Inr add.assoc)


lemma prod_list_people:
  fixes F :: "string \<Rightarrow> person \<Rightarrow> rat"
  assumes "distinct (map fst people)"
  shows "prod_list (map (\<lambda>(n, v). F n v) people) = (\<Prod>n\<in>set (map fst people). F n (record_of people n))"
proof -
  have "map (\<lambda>(n, v). F n v) people = map ((\<lambda>n. F n (record_of people n)) \<circ> fst) people"
  proof (rule map_cong [OF refl])
    fix x assume "x \<in> set people"
    then have "map_of people (fst x) = Some (snd x)"
      using assms by simp
    then show "(case x of (n, v) \<Rightarrow> F n v) = ((\<lambda>n. F n (record_of people n)) \<circ> fst) x"
      by (simp add: record_of_def case_prod_unfold)
  qed
  then have "prod_list (map (\<lambda>(n, v). F n v) people) =
      prod_list (map (\<lambda>n. F n (record_of people n)) (map fst people))"
    by (simp only: map_map)
  then show ?thesis
    by (simp only: prod.distinct_set_conv_list [OF assms])
qed

lemma joint_total_val:
  assumes "distinct (map fst people)"
  shows "joint_total PROBS people = Inr (total (record_of people) (set (map fst people)))"
proof -
  let ?names = "map fst people"
  let ?J = "\<lambda>ht og tg. prod_list (map (\<lambda>(n, v). factor og tg ht n v) people)"
  have inner: "for_each (\<lambda>two_genes total.
              ebind (joint_probability PROBS people og two_genes ht) (\<lambda>p. Inr (total + p)))
          xs a = Inr (a + sum_list (map (?J ht og) xs))" for og ht xs a
    by (rule for_each_sum) (simp add: joint_probability_val ebind_Inr)
  have loops: "gene_loops (\<lambda>one_gene two_genes total.
              ebind (joint_probability PROBS people one_gene two_genes ht)
                (\<lambda>p. Inr (total + p))) ?names a
      = Inr (a + (\<Sum>og\<leftarrow>powerset ?names.
                    sum_list (map (?J ht og) (powerset (filter (\<lambda>n. n \<notin> og) ?names)))))" for ht a
    unfolding gene_loops_def by (rule for_each_sum) (simp add: inner)
  have "joint_total PROBS people =
      Inr (0 + (\<Sum>ht\<leftarrow>powerset ?names. \<Sum>og\<leftarrow>powerset ?names.
                    sum_list (map (?J ht og) (powerset (filter (\<lambda>n. n \<notin> og) ?names)))))"
    unfolding joint_total_def Let_def by (rule for_each_sum) (simp add: loops)
  also have "(\<Sum>ht\<leftarrow>powerset ?names. \<Sum>og\<leftarrow>powerset ?names.
                    sum_list (map (?J ht og) (powerset (filter (\<lambda>n. n \<notin> og) ?names))))
     = (\<Sum>ht\<in>Pow (set ?names). \<Sum>og\<in>Pow (set ?names). \<Sum>tg\<in>Pow (set ?names - og). ?J ht og tg)"
    using assms by (simp add: sum_list_powerset set_diff_eq)
  finally show ?thesis
    by (simp add: total_def prod_list_people [OF assms])
qed


subsection \<open>Removing a person who is nobody's parent\<close>

lemma sum_Pow_insert:
  fixes f :: "'a set \<Rightarrow> rat"
  assumes "finite A" and "x \<notin> A"
  shows "sum f (Pow (insert x A)) = (\<Sum>S\<in>Pow A. f S + f (insert x S))"
proof -
  have disj: "Pow A \<inter> insert x ` Pow A = {}"
    using assms by auto
  have inj: "inj_on (insert x) (Pow A)"
    using assms by (auto simp: inj_on_def)
  have "sum f (Pow (insert x A)) = sum f (Pow A) + sum f (insert x ` Pow A)"
    unfolding Pow_insert by (rule sum.union_disjoint) (use assms disj in auto)
  also have "sum f (insert x ` Pow A) = (\<Sum>S\<in>Pow A. f (insert x S))"
    by (simp add: sum.reindex [OF inj])
  finally show ?thesis
    by (simp add: sum.distrib)
qed

lemma sum_gene_pairs_insert:
  fixes G :: "'a set \<Rightarrow> 'a set \<Rightarrow> rat"
  assumes "finite A" and "x \<notin> A"
  shows "(\<Sum>og\<in>Pow (insert x A). \<Sum>tg\<in>Pow (insert x A - og). G og tg) =
         (\<Sum>og\<in>Pow A. \<Sum>tg\<in>Pow (A - og).
            G og tg + G og (insert x tg) + G (insert x og) tg)"
proof -
  have "(\<Sum>og\<in>Pow (insert x A). \<Sum>tg\<in>Pow (insert x A - og). G og tg) =
        (\<Sum>og\<in>Pow A. (\<Sum>tg\<in>Pow (insert x A - og). G og tg)
            + (\<Sum>tg\<in>Pow (insert x A - insert x og). G (insert x og) tg))"
    by (rule sum_Pow_insert [OF assms])
  also have "\<dots> = (\<Sum>og\<in>Pow A. \<Sum>tg\<in>Pow (A - og).
            G og tg + G og (insert x tg) + G (insert x og) tg)"
  proof (rule sum.cong [OF refl])
    fix og assume "og \<in> Pow A"
    then have 1: "insert x A - og = insert x (A - og)"
      and 2: "insert x A - insert x og = A - og"
      using assms by auto
    have fin: "finite (A - og)" and notin: "x \<notin> A - og"
      using assms by auto
    show "(\<Sum>tg\<in>Pow (insert x A - og). G og tg)
            + (\<Sum>tg\<in>Pow (insert x A - insert x og). G (insert x og) tg)
        = (\<Sum>tg\<in>Pow (A - og). G og tg + G og (insert x tg) + G (insert x og) tg)"
      unfolding 1 2 sum_Pow_insert [OF fin notin] by (simp add: sum.distrib)
  qed
  finally show ?thesis .
qed

lemma gene_count_agree:
  assumes "n \<noteq> x" and "\<And>y. y \<noteq> x \<Longrightarrow> (y \<in> og') = (y \<in> og)"
    and "\<And>y. y \<noteq> x \<Longrightarrow> (y \<in> tg') = (y \<in> tg)"
  shows "gene_count og' tg' n = gene_count og tg n"
  using assms by (simp add: gene_count_def)

lemma parent_count_agree:
  assumes "p \<noteq> Some x" and "\<And>y. y \<noteq> x \<Longrightarrow> (y \<in> og') = (y \<in> og)"
    and "\<And>y. y \<noteq> x \<Longrightarrow> (y \<in> tg') = (y \<in> tg)"
  shows "parent_count og' tg' p = parent_count og tg p"
  using assms by (cases p) (simp_all add: parent_count_def gene_count_def)

lemma factor_agree:
  assumes "n \<noteq> x" and "mother v \<noteq> Some x" and "father v \<noteq> Some x"
    and "\<And>y. y \<noteq> x \<Longrightarrow> (y \<in> og') = (y \<in> og)"
    and "\<And>y. y \<noteq> x \<Longrightarrow> (y \<in> tg') = (y \<in> tg)"
    and "\<And>y. y \<noteq> x \<Longrightarrow> (y \<in> ht') = (y \<in> ht)"
  shows "factor og' tg' ht' n v = factor og tg ht n v"
  unfolding factor_def
  using gene_count_agree [of n x og' og tg' tg] parent_count_agree [of "mother v" x og' og tg' tg]
    parent_count_agree [of "father v" x og' og tg' tg] assms
  by simp

lemma trait_p_sum: "g < 3 \<Longrightarrow> trait_p g False + trait_p g True = 1"
  by (auto simp: lt3 trait_p_vals)

lemma gene_p_sum: "gene_p 0 + gene_p 2 + gene_p (Suc 0) = 1"
  by (simp add: gene_p_vals)

lemma child_gene_sum: "child_gene mg fg 0 + child_gene mg fg 2 + child_gene mg fg (Suc 0) = 1"
  by (simp add: child_gene_def algebra_simps)


lemma gene_factor_sum:
  "gene_factor v mg fg 0 + gene_factor v mg fg 2 + gene_factor v mg fg (Suc 0) = 1"
  by (simp add: gene_factor_def gene_p_sum child_gene_sum)

lemma factor_leaf_sum:
  assumes "x \<notin> og" and "x \<notin> tg" and "x \<notin> ht"
    and "mother v \<noteq> Some x" and "father v \<noteq> Some x"
  shows "factor og tg ht x v + factor og (insert x tg) ht x v + factor (insert x og) tg ht x v
       + (factor og tg (insert x ht) x v + factor og (insert x tg) (insert x ht) x v
          + factor (insert x og) tg (insert x ht) x v) = 1"
proof -
  let ?mg = "parent_count og tg (mother v)" and ?fg = "parent_count og tg (father v)"
  have pc: "parent_count og' tg' (mother v) = ?mg" "parent_count og' tg' (father v) = ?fg"
    if "\<And>y. y \<noteq> x \<Longrightarrow> (y \<in> og') = (y \<in> og)" "\<And>y. y \<noteq> x \<Longrightarrow> (y \<in> tg') = (y \<in> tg)"
    for og' tg'
    using parent_count_agree [OF assms(4) that] parent_count_agree [OF assms(5) that] by simp_all
  have f: "factor og' tg' ht' x v =
      gene_factor v ?mg ?fg (gene_count og' tg' x) * trait_p (gene_count og' tg' x) (x \<in> ht')"
    if "\<And>y. y \<noteq> x \<Longrightarrow> (y \<in> og') = (y \<in> og)" "\<And>y. y \<noteq> x \<Longrightarrow> (y \<in> tg') = (y \<in> tg)"
    for og' tg' ht'
    by (simp add: factor_def gene_factor_def pc [OF that])
  have g: "gene_count og tg x = 0" "gene_count og (insert x tg) x = 2"
    "gene_count (insert x og) tg x = 1"
    using assms by (simp_all add: gene_count_def)
  have "factor og tg ht x v + factor og (insert x tg) ht x v + factor (insert x og) tg ht x v
       + (factor og tg (insert x ht) x v + factor og (insert x tg) (insert x ht) x v
          + factor (insert x og) tg (insert x ht) x v)
     = gene_factor v ?mg ?fg 0 * (trait_p 0 False + trait_p 0 True)
     + gene_factor v ?mg ?fg 2 * (trait_p 2 False + trait_p 2 True)
     + gene_factor v ?mg ?fg 1 * (trait_p 1 False + trait_p 1 True)"
    using assms by (simp add: f g algebra_simps)
  also have "\<dots> = 1"
    by (simp add: trait_p_sum gene_factor_sum)
  finally show ?thesis .
qed


lemma total_leaf:
  assumes fin: "finite A" and x: "x \<notin> A"
    and leaf: "\<And>n. n \<in> insert x A \<Longrightarrow> mother (rec n) \<noteq> Some x \<and> father (rec n) \<noteq> Some x"
  shows "total rec (insert x A) = total rec A"
proof -
  let ?F = "\<lambda>ht og tg. \<Prod>n\<in>insert x A. factor og tg ht n (rec n)"
  let ?P = "\<lambda>ht og tg. \<Prod>n\<in>A. factor og tg ht n (rec n)"
  have split: "?F ht' og' tg' = factor og' tg' ht' x (rec x) * ?P ht og tg"
    if "\<And>y. y \<noteq> x \<Longrightarrow> (y \<in> og') = (y \<in> og)" "\<And>y. y \<noteq> x \<Longrightarrow> (y \<in> tg') = (y \<in> tg)"
      "\<And>y. y \<noteq> x \<Longrightarrow> (y \<in> ht') = (y \<in> ht)"
    for ht' og' tg' ht og tg
  proof -
    have "(\<Prod>n\<in>A. factor og' tg' ht' n (rec n)) = ?P ht og tg"
    proof (rule prod.cong [OF refl])
      fix n assume "n \<in> A"
      then have "n \<noteq> x" "mother (rec n) \<noteq> Some x" "father (rec n) \<noteq> Some x"
        using x leaf [of n] by auto
      then show "factor og' tg' ht' n (rec n) = factor og tg ht n (rec n)"
        using that by (rule factor_agree)
    qed
    then show ?thesis
      by (simp add: prod.insert [OF fin x])
  qed
  have pairs: "(\<Sum>og\<in>Pow (insert x A). \<Sum>tg\<in>Pow (insert x A - og). ?F ht' og tg) =
      (\<Sum>og\<in>Pow A. \<Sum>tg\<in>Pow (A - og).
         ?F ht' og tg + ?F ht' og (insert x tg) + ?F ht' (insert x og) tg)" for ht'
    by (rule sum_gene_pairs_insert [OF fin x])
  have "total rec (insert x A) =
      (\<Sum>ht\<in>Pow A.
         (\<Sum>og\<in>Pow (insert x A). \<Sum>tg\<in>Pow (insert x A - og). ?F ht og tg)
       + (\<Sum>og\<in>Pow (insert x A). \<Sum>tg\<in>Pow (insert x A - og). ?F (insert x ht) og tg))"
    unfolding total_def by (rule sum_Pow_insert [OF fin x])
  also have "\<dots> =
      (\<Sum>ht\<in>Pow A. \<Sum>og\<in>Pow A. \<Sum>tg\<in>Pow (A - og).
         (?F ht og tg + ?F ht og (insert x tg) + ?F ht (insert x og) tg)
       + (?F (insert x ht) og tg + ?F (insert x ht) og (insert x tg)
          + ?F (insert x ht) (insert x og) tg))"
    unfolding pairs by (simp only: sum.distrib)
  also have "\<dots> = (\<Sum>ht\<in>Pow A. \<Sum>og\<in>Pow A. \<Sum>tg\<in>Pow (A - og). ?P ht og tg)"
  proof (intro sum.cong [OF refl])
    fix ht og tg assume "ht \<in> Pow A" "og \<in> Pow A" "tg \<in> Pow (A - og)"
    then have notin: "x \<notin> og" "x \<notin> tg" "x \<notin> ht"
      using x by auto
    have "(?F ht og tg + ?F ht og (insert x tg) + ?F ht (insert x og) tg)
       + (?F (insert x ht) og tg + ?F (insert x ht) og (insert x tg)
          + ?F (insert x ht) (insert x og) tg)
      = (factor og tg ht x (rec x) + factor og (insert x tg) ht x (rec x)
           + factor (insert x og) tg ht x (rec x)
         + (factor og tg (insert x ht) x (rec x)
            + factor og (insert x tg) (insert x ht) x (rec x)
            + factor (insert x og) tg (insert x ht) x (rec x))) * ?P ht og tg"
      by (simp add: split [of _ og _ tg _ ht] distrib_right)
    also have "\<dots> = ?P ht og tg"
      using factor_leaf_sum [OF notin, of "rec x"] leaf [of x] by simp
    finally show "(?F ht og tg + ?F ht og (insert x tg) + ?F ht (insert x og) tg)
       + (?F (insert x ht) og tg + ?F (insert x ht) og (insert x tg)
          + ?F (insert x ht) (insert x og) tg) = ?P ht og tg" .
  qed
  finally show ?thesis
    by (simp add: total_def)
qed

lemma parents_in_mono: "A \<subseteq> B \<Longrightarrow> parents_in rec A \<subseteq> parents_in rec B"
  by (auto simp: parents_in_def)

lemma total_one:
  assumes "finite N" and "wf (parents_in rec N)"
  shows "total rec N = 1"
  using assms
proof (induction "card N" arbitrary: N)
  case 0
  then have "N = {}" by simp
  then show ?case by (simp add: total_def)
next
  case (Suc k)
  then have "N \<noteq> {}" by auto
  then obtain x0 where "x0 \<in> N" by blast
  with Suc.prems(2) obtain x where xN: "x \<in> N"
    and minimal: "\<And>y. (y, x) \<in> parents_in rec N \<Longrightarrow> y \<notin> N"
    by (rule wfE_min) blast
  let ?A = "N - {x}"
  have N: "N = insert x ?A" using xN by blast
  have fin: "finite ?A" and notin: "x \<notin> ?A" using Suc.prems(1) by auto
  have leaf: "mother (rec n) \<noteq> Some x \<and> father (rec n) \<noteq> Some x" if "n \<in> insert x ?A" for n
  proof -
    from that have "n \<in> N" using xN by auto
    then have "(n, x) \<notin> parents_in rec N" using minimal by blast
    with \<open>n \<in> N\<close> show ?thesis by (simp add: parents_in_def)
  qed
  have "card ?A = k" using Suc.hyps(2) xN Suc.prems(1) by simp
  moreover have "wf (parents_in rec ?A)"
    by (rule wf_subset [OF Suc.prems(2)]) (rule parents_in_mono, blast)
  ultimately have "total rec ?A = 1"
    using Suc.hyps(1) [of ?A] fin by simp
  moreover have "total rec (insert x ?A) = total rec ?A"
    using fin notin leaf by (rule total_leaf)
  ultimately show ?case
    using N by simp
qed

lemma parents_in_people:
  assumes "distinct (map fst people)"
  shows "parents_in (record_of people) (set (map fst people)) = parent_rel people"
proof -
  have rec: "record_of people c = v" if "(c, v) \<in> set people" for c v
  proof -
    from that have "map_of people c = Some v"
      using assms by simp
    then show ?thesis
      by (simp add: record_of_def)
  qed
  show ?thesis
    unfolding parents_in_def parent_rel_def
    by (auto simp: rec intro: rev_image_eqI)
qed

lemma finite_parent_rel: "finite (parent_rel people)"
proof -
  have "parent_rel people \<subseteq>
      (\<lambda>(c, v). (c, the (mother v))) ` set people \<union> (\<lambda>(c, v). (c, the (father v))) ` set people"
    unfolding parent_rel_def by force
  then show ?thesis
    by (rule finite_subset) simp
qed


text \<open>
  C2, with the hypothesis the code needs: for every pedigree in which each person has
  both parents, both in the pedigree, or neither, and in which no person is their own
  ancestor, the sum of \<^verbatim>\<open>joint_probability\<close> over all trait hypotheses and all pairs of
  disjoint gene sets is exactly 1. The proof removes one person who is nobody's parent
  at a time; it does not use the hypothesis on the parents being present.
\<close>

theorem joint_total_is_one:
  assumes "distinct (map fst people)" and "well_formed people" and "acyclic (parent_rel people)"
  shows "joint_total PROBS people = Inr 1"
proof -
  have "wf (parent_rel people)"
    using finite_parent_rel assms(3) by (rule finite_acyclic_wf)
  then have "wf (parents_in (record_of people) (set (map fst people)))"
    by (simp only: parents_in_people [OF assms(1)])
  then have "total (record_of people) (set (map fst people)) = 1"
    by (rule total_one [OF finite_set])
  then show ?thesis
    by (simp add: joint_total_val [OF assms(1)])
qed



theorem joint_total_is_one_witness:
  "distinct (map fst
     [(''C'', \<lparr>name = ''C'', mother = Some ''M'', father = Some ''F'', trait = None\<rparr>),
      (''M'', \<lparr>name = ''M'', mother = None, father = None, trait = Some True\<rparr>),
      (''F'', \<lparr>name = ''F'', mother = None, father = None, trait = None\<rparr>)]) \<and>
   well_formed
     [(''C'', \<lparr>name = ''C'', mother = Some ''M'', father = Some ''F'', trait = None\<rparr>),
      (''M'', \<lparr>name = ''M'', mother = None, father = None, trait = Some True\<rparr>),
      (''F'', \<lparr>name = ''F'', mother = None, father = None, trait = None\<rparr>)] \<and>
   acyclic (parent_rel
     [(''C'', \<lparr>name = ''C'', mother = Some ''M'', father = Some ''F'', trait = None\<rparr>),
      (''M'', \<lparr>name = ''M'', mother = None, father = None, trait = Some True\<rparr>),
      (''F'', \<lparr>name = ''F'', mother = None, father = None, trait = None\<rparr>)]) \<and>
   joint_total PROBS
     [(''C'', \<lparr>name = ''C'', mother = Some ''M'', father = Some ''F'', trait = None\<rparr>),
      (''M'', \<lparr>name = ''M'', mother = None, father = None, trait = Some True\<rparr>),
      (''F'', \<lparr>name = ''F'', mother = None, father = None, trait = None\<rparr>)] = Inr 1"
proof -
  let ?p = "[(''C'', \<lparr>name = ''C'', mother = Some ''M'', father = Some ''F'', trait = None\<rparr>),
      (''M'', \<lparr>name = ''M'', mother = None, father = None, trait = Some True\<rparr>),
      (''F'', \<lparr>name = ''F'', mother = None, father = None, trait = None\<rparr>)]"
  have d: "distinct (map fst ?p)"
    by simp
  have w: "well_formed ?p"
    by (simp add: well_formed_def)
  have "parent_rel ?p \<subseteq> measure (\<lambda>n. if n = ''C'' then 0 else Suc 0)"
    by (auto simp: parent_rel_def)
  then have a: "acyclic (parent_rel ?p)"
    by (rule acyclic_subset [OF wf_acyclic [OF wf_measure]])
  from d w a joint_total_is_one [OF d w a] show ?thesis
    by (intro conjI)
qed


text \<open>
  Without the hypothesis on ancestors the claim fails: the one-person pedigree whose
  person is recorded as their own mother and father satisfies the hypothesis of the
  claim, and its total is \<open>0.9801 + 0.5 + 0.9801\<close>.
\<close>

lemma pass_vals: "pass 0 = 1 / 100" "pass (Suc 0) = 1 / 2" "pass 2 = 99 / 100"
  by (simp_all add: pass_def parent_def)


theorem joint_total_cyclic_counterexample:
  "distinct (map fst [(''A'', \<lparr>name = ''A'', mother = Some ''A'', father = Some ''A'', trait = None\<rparr>)]) \<and>
   well_formed [(''A'', \<lparr>name = ''A'', mother = Some ''A'', father = Some ''A'', trait = None\<rparr>)] \<and>
   joint_total PROBS [(''A'', \<lparr>name = ''A'', mother = Some ''A'', father = Some ''A'', trait = None\<rparr>)]
     = Inr (12301 / 5000)"
  unfolding joint_total_def Let_def
  by (simp add: well_formed_def powerset_single powerset_Nil gene_loops_def joint_probability_val
      ebind_Inr factor_def gene_count_def parent_count_def child_gene_def pass_vals trait_p_vals)



end
